theory Spec2Isabelle
  imports Main "HOL-Library.Word"
begin

section \<open>JavaScript values used by the server\<close>

text \<open>
  A JavaScript string is a sequence of UTF-16 code units; \<open>length\<close>, \<open>slice\<close>,
  \<open>split\<close> and \<open>trim\<close> all count code units. The helper \<open>js\<close> writes a
  literal.
\<close>

type_synonym jsstring = "16 word list"

definition js :: "string \<Rightarrow> jsstring" where
  "js s = map of_char s"

text \<open>
  A \<open>Date\<close> is read through \<open>getTime()\<close>: milliseconds since the epoch. Every date
  of the store comes from \<open>new Date()\<close>, so it is never the invalid date.
\<close>

type_synonym date = int

subsection \<open>The built-in Map\<close>

text \<open>
  A JavaScript \<open>Map\<close> keeps its entries in insertion order: \<open>set\<close> on a key already
  present replaces the value in place, \<open>set\<close> on a new key appends, \<open>delete\<close> tells
  whether the key was there, and \<open>values()\<close> enumerates in that order.
\<close>

type_synonym ('k, 'v) jsmap = "('k \<times> 'v) list"

primrec map_set :: "'k \<Rightarrow> 'v \<Rightarrow> ('k, 'v) jsmap \<Rightarrow> ('k, 'v) jsmap" where
  "map_set k v [] = [(k, v)]"
| "map_set k v (p # ps) = (if fst p = k then (k, v) # ps else p # map_set k v ps)"

definition map_has :: "'k \<Rightarrow> ('k, 'v) jsmap \<Rightarrow> bool" where
  "map_has k m = (k \<in> set (map fst m))"

definition map_get :: "'k \<Rightarrow> ('k, 'v) jsmap \<Rightarrow> 'v option" where
  "map_get k m = map_of m k"

definition map_delete :: "'k \<Rightarrow> ('k, 'v) jsmap \<Rightarrow> ('k, 'v) jsmap" where
  "map_delete k m = filter (\<lambda>p. fst p \<noteq> k) m"

definition map_values :: "('k, 'v) jsmap \<Rightarrow> 'v list" where
  "map_values m = map snd m"

text \<open>\<open>Array.prototype.find\<close>: the first element that satisfies the predicate.\<close>

definition array_find :: "('a \<Rightarrow> bool) \<Rightarrow> 'a list \<Rightarrow> 'a option" where
  "array_find P xs = (case filter P xs of [] \<Rightarrow> None | x # _ \<Rightarrow> Some x)"

section \<open>The record store (MemStorage)\<close>

datatype role = User | Assistant

record conversation =
  conv_id :: jsstring
  title :: jsstring
  model :: jsstring
  createdAt :: date
  updatedAt :: date

record insertConversation =
  ic_title :: jsstring
  ic_model :: jsstring

text \<open>
  \<open>Partial<Conversation>\<close>: every field may be absent (\<open>None\<close>), and the object spread
  copies the fields that are there.
\<close>

record conversationUpdates =
  upd_id :: "jsstring option"
  upd_title :: "jsstring option"
  upd_model :: "jsstring option"
  upd_createdAt :: "date option"
  upd_updatedAt :: "date option"

record message =
  msg_id :: jsstring
  conversationId :: jsstring
  role :: role
  content :: jsstring
  timestamp :: date

record insertMessage =
  im_conversationId :: jsstring
  im_role :: role
  im_content :: jsstring

text \<open>
  \<open>size\<close> is \<open>string | null\<close> in a stored model (\<open>None\<close> is a nullish value). In
  \<open>InsertOllamaModel\<close> the keys \<open>size\<close> and \<open>isAvailable\<close> are optional: the outer
  \<open>None\<close> is an absent key, \<open>Some None\<close> a \<open>size\<close> key holding \<open>null\<close> or
  \<open>undefined\<close> (the catalog sync writes \<open>size: undefined\<close> for a model without one).
\<close>

record ollamaModel =
  model_id :: jsstring
  name :: jsstring
  displayName :: jsstring
  model_size :: "jsstring option"
  isAvailable :: bool
  lastUpdated :: date

record insertOllamaModel =
  im_name :: jsstring
  im_displayName :: jsstring
  im_size :: "jsstring option option"
  im_isAvailable :: "bool option"

record store =
  conversations :: "(jsstring, conversation) jsmap"
  messages :: "(jsstring, message) jsmap"
  models :: "(jsstring, ollamaModel) jsmap"

text \<open>
  The constructor starts with empty maps. (The settings collection, which the
  constructor seeds, takes no part in the operations below and is left out.)
\<close>

definition MemStorage :: store where
  "MemStorage = \<lparr>conversations = [], messages = [], models = []\<rparr>"

text \<open>
  Each operation that calls \<open>randomUUID()\<close> or \<open>new Date()\<close> takes the value drawn
  as an argument (\<open>uuid\<close>, \<open>now\<close>) and returns its result with the new store.
\<close>

subsection \<open>Conversations\<close>

text \<open>
  \<open>Array.prototype.sort\<close> is stable; with the comparator \<open>b.updatedAt - a.updatedAt\<close>
  it orders by descending \<open>updatedAt\<close>.
\<close>

definition getConversations :: "store \<Rightarrow> conversation list" where
  "getConversations s = sort_key (\<lambda>c. - updatedAt c) (map_values (conversations s))"

definition getConversation :: "store \<Rightarrow> jsstring \<Rightarrow> conversation option" where
  "getConversation s i = map_get i (conversations s)"

definition createConversation ::
  "store \<Rightarrow> insertConversation \<Rightarrow> jsstring \<Rightarrow> date \<Rightarrow> conversation \<times> store" where
  "createConversation s ins uuid now =
     (let conversation = \<lparr>conv_id = uuid, title = ic_title ins, model = ic_model ins,
                           createdAt = now, updatedAt = now\<rparr>
      in (conversation, s\<lparr>conversations := map_set uuid conversation (conversations s)\<rparr>))"

definition spread_updates :: "conversation \<Rightarrow> conversationUpdates \<Rightarrow> conversation" where
  "spread_updates c u =
     \<lparr>conv_id = (case upd_id u of None \<Rightarrow> conv_id c | Some v \<Rightarrow> v),
      title = (case upd_title u of None \<Rightarrow> title c | Some v \<Rightarrow> v),
      model = (case upd_model u of None \<Rightarrow> model c | Some v \<Rightarrow> v),
      createdAt = (case upd_createdAt u of None \<Rightarrow> createdAt c | Some v \<Rightarrow> v),
      updatedAt = (case upd_updatedAt u of None \<Rightarrow> updatedAt c | Some v \<Rightarrow> v)\<rparr>"

definition updateConversation ::
  "store \<Rightarrow> jsstring \<Rightarrow> conversationUpdates \<Rightarrow> date \<Rightarrow> conversation option \<times> store" where
  "updateConversation s i updates now =
     (case map_get i (conversations s) of
        None \<Rightarrow> (None, s)
      | Some conversation \<Rightarrow>
          (let updated = (spread_updates conversation updates)\<lparr>updatedAt := now\<rparr>
           in (Some updated, s\<lparr>conversations := map_set i updated (conversations s)\<rparr>)))"

definition deleteConversation :: "store \<Rightarrow> jsstring \<Rightarrow> bool \<times> store" where
  "deleteConversation s i =
     (let deleted = map_has i (conversations s);
          s1 = s\<lparr>conversations := map_delete i (conversations s)\<rparr>
      in if deleted then
           (let messagesToDelete = filter (\<lambda>msg. conversationId msg = i) (map_values (messages s1))
            in (deleted, s1\<lparr>messages := fold (\<lambda>msg. map_delete (msg_id msg)) messagesToDelete (messages s1)\<rparr>))
         else (deleted, s1))"

subsection \<open>Messages\<close>

text \<open>The comparator \<open>a.timestamp - b.timestamp\<close>: a stable sort by ascending timestamp.\<close>

definition getMessages :: "store \<Rightarrow> jsstring \<Rightarrow> message list" where
  "getMessages s cid =
     sort_key timestamp (filter (\<lambda>msg. conversationId msg = cid) (map_values (messages s)))"

definition createMessage :: "store \<Rightarrow> insertMessage \<Rightarrow> jsstring \<Rightarrow> date \<Rightarrow> message \<times> store" where
  "createMessage s ins uuid now =
     (let message = \<lparr>msg_id = uuid, conversationId = im_conversationId ins, role = im_role ins,
                      content = im_content ins, timestamp = now\<rparr>
      in (message, s\<lparr>messages := map_set uuid message (messages s)\<rparr>))"

definition deleteMessages :: "store \<Rightarrow> jsstring \<Rightarrow> bool \<times> store" where
  "deleteMessages s cid =
     (let messagesToDelete = filter (\<lambda>msg. conversationId msg = cid) (map_values (messages s))
      in (0 < length messagesToDelete,
          s\<lparr>messages := fold (\<lambda>msg. map_delete (msg_id msg)) messagesToDelete (messages s)\<rparr>))"

subsection \<open>Models\<close>

definition deleteModel :: "store \<Rightarrow> jsstring \<Rightarrow> bool \<times> store" where
  "deleteModel s n =
     (case array_find (\<lambda>m. name m = n) (map_values (models s)) of
        Some m \<Rightarrow> (map_has (model_id m) (models s),
                   s\<lparr>models := map_delete (model_id m) (models s)\<rparr>)
      | None \<Rightarrow> (False, s))"

text \<open>
  In the update branch the spread \<open>{...existing, ...insertModel}\<close> takes every key that
  \<open>insertModel\<close> has; in the create branch \<open>insertModel.size || null\<close> turns the empty
  string into \<open>null\<close> as well, and \<open>insertModel.isAvailable ?? true\<close> fills the default.
\<close>

definition createOrUpdateModel ::
  "store \<Rightarrow> insertOllamaModel \<Rightarrow> jsstring \<Rightarrow> date \<Rightarrow> ollamaModel \<times> store" where
  "createOrUpdateModel s ins uuid now =
     (case array_find (\<lambda>m. name m = im_name ins) (map_values (models s)) of
        Some existing \<Rightarrow>
          (let updated = \<lparr>model_id = model_id existing, name = im_name ins,
                           displayName = im_displayName ins,
                           model_size = (case im_size ins of None \<Rightarrow> model_size existing | Some v \<Rightarrow> v),
                           isAvailable = (case im_isAvailable ins of None \<Rightarrow> isAvailable existing | Some b \<Rightarrow> b),
                           lastUpdated = now\<rparr>
           in (updated, s\<lparr>models := map_set (model_id existing) updated (models s)\<rparr>))
      | None \<Rightarrow>
          (let model = \<lparr>model_id = uuid, name = im_name ins, displayName = im_displayName ins,
                         model_size = (case im_size ins of Some (Some v) \<Rightarrow> (if v = [] then None else Some v)
                                       | _ \<Rightarrow> None),
                         isAvailable = (case im_isAvailable ins of None \<Rightarrow> True | Some b \<Rightarrow> b),
                         lastUpdated = now\<rparr>
           in (model, s\<lparr>models := map_set uuid model (models s)\<rparr>)))"

subsection \<open>Representation invariants\<close>

text \<open>
  A \<open>Map\<close> never holds a key twice, and the store files every message and model under
  its own \<open>id\<close>. \<open>keyed_by f m\<close> says both of the map \<open>m\<close> whose values carry their key
  in field \<open>f\<close>. In the model collection no two records share a name.
\<close>

definition keyed_by :: "('v \<Rightarrow> 'k) \<Rightarrow> ('k, 'v) jsmap \<Rightarrow> bool" where
  "keyed_by f m = (distinct (map fst m) \<and> list_all (\<lambda>p. f (snd p) = fst p) m)"

definition models_wf :: "store \<Rightarrow> bool" where
  "models_wf s = (keyed_by model_id (models s) \<and> distinct (map name (map_values (models s))))"

definition store_wf :: "store \<Rightarrow> bool" where
  "store_wf s = (keyed_by conv_id (conversations s) \<and> keyed_by msg_id (messages s) \<and> models_wf s)"

text \<open>The invariant on dates: no conversation was updated before it was created.\<close>

definition dates_ordered :: "store \<Rightarrow> bool" where
  "dates_ordered s = list_all (\<lambda>c. createdAt c \<le> updatedAt c) (map_values (conversations s))"

section \<open>JSON values and the runtime's built-ins\<close>

text \<open>
  The values \<open>JSON.parse\<close> can return. Numbers are IEEE doubles, kept abstract in the
  type \<open>'n\<close>; an object is its list of own properties.
\<close>

datatype 'n json =
    JNull
  | JBool bool
  | JNum 'n
  | JStr jsstring
  | JArr "'n json list"
  | JObj "(jsstring \<times> 'n json) list"

datatype js_error = Error jsstring | TypeError

text \<open>
  The built-ins the server calls but does not define: \<open>JSON.parse\<close> (\<open>None\<close> when it
  throws a SyntaxError), the truth value of a number, and the conversion to string that
  \<open>+=\<close> applies to an operand that is not a string (\<open>None\<close> when the conversion throws).
\<close>

record 'n runtime =
  JSON_parse :: "jsstring \<Rightarrow> 'n json option"
  Number_truthy :: "'n \<Rightarrow> bool"
  ToString :: "'n json \<Rightarrow> jsstring option"

fun truthy :: "'n runtime \<Rightarrow> 'n json \<Rightarrow> bool" where
  "truthy rt JNull = False"
| "truthy rt (JBool b) = b"
| "truthy rt (JNum n) = Number_truthy rt n"
| "truthy rt (JStr s) = (s \<noteq> [])"
| "truthy rt (JArr xs) = True"
| "truthy rt (JObj kvs) = True"

text \<open>A value that may be \<open>undefined\<close> (\<open>None\<close>), which is falsy.\<close>

definition truthy_opt :: "'n runtime \<Rightarrow> 'n json option \<Rightarrow> bool" where
  "truthy_opt rt v = (case v of None \<Rightarrow> False | Some x \<Rightarrow> truthy rt x)"

text \<open>
  Reading one of the properties \<open>message\<close>, \<open>content\<close>, \<open>done\<close> of a value that is not
  \<open>null\<close>: only an object can have them, any other value gives \<open>undefined\<close>.
\<close>

fun get_prop :: "'n json \<Rightarrow> jsstring \<Rightarrow> 'n json option" where
  "get_prop (JObj kvs) k = map_of kvs k"
| "get_prop v k = None"

text \<open>\<open>acc += v\<close> on a string \<open>acc\<close>.\<close>

definition append_value :: "'n runtime \<Rightarrow> jsstring \<Rightarrow> 'n json \<Rightarrow> js_error + jsstring" where
  "append_value rt acc v =
     (case v of
        JStr s \<Rightarrow> Inr (acc @ s)
      | _ \<Rightarrow> (case ToString rt v of None \<Rightarrow> Inl TypeError | Some s \<Rightarrow> Inr (acc @ s)))"

subsection \<open>Strings\<close>

text \<open>The white space and line terminators that \<open>String.prototype.trim\<close> strips.\<close>

definition is_whitespace :: "16 word \<Rightarrow> bool" where
  "is_whitespace c =
     (c \<in> {0x09, 0x0A, 0x0B, 0x0C, 0x0D, 0x20, 0xA0, 0x1680, 0x2028, 0x2029, 0x202F,
            0x205F, 0x3000, 0xFEFF} \<or> (0x2000 \<le> c \<and> c \<le> 0x200A))"

definition js_trim :: "jsstring \<Rightarrow> jsstring" where
  "js_trim s = rev (dropWhile is_whitespace (rev (dropWhile is_whitespace s)))"

text \<open>
  \<open>s.split('\n')\<close>: the pieces between line feeds, so a string with \<open>k\<close> line feeds gives
  \<open>k + 1\<close> pieces and the empty string gives one empty piece. (The result is never
  empty; the last case of the inner \<open>case\<close> is there for totality only.)
\<close>

fun split_newline :: "jsstring \<Rightarrow> jsstring list" where
  "split_newline [] = [[]]"
| "split_newline (c # cs) =
     (if c = 0x0A then [] # split_newline cs
      else (case split_newline cs of l # ls \<Rightarrow> (c # l) # ls | [] \<Rightarrow> [[c]]))"

section \<open>The inference client (OllamaClient.streamChat)\<close>

text \<open>
  What the backend does is an input of the model. \<open>fetch\<close> either rejects or resolves
  to a response with its \<open>ok\<close> flag and, if it has one, a body; the body is the list of
  chunks its reader delivers (each already decoded to text by the streaming
  \<open>TextDecoder\<close>) and the way the reads end: the reader reports \<open>done\<close>, or a read
  rejects. A body that never ends is not modelled.
\<close>

datatype stream_end = Closed | Read_failed js_error

datatype fetch_result =
    Fetch_rejected js_error
  | Fetch_response bool "(jsstring list \<times> stream_end) option"

text \<open>
  The request body of \<open>POST /api/chat\<close>. \<open>options.temperature || 0.7\<close> and
  \<open>options.max_tokens || 1024\<close> keep a truthy value and fall back to the literal.
\<close>

datatype 'n or_literal = Given "'n json" | Literal_0_7 | Literal_1024

definition or_literal :: "'n runtime \<Rightarrow> 'n json option \<Rightarrow> 'n or_literal \<Rightarrow> 'n or_literal" where
  "or_literal rt v d = (case v of None \<Rightarrow> d | Some x \<Rightarrow> if truthy rt x then Given x else d)"

record 'n chat_request =
  rq_model :: "'n json option"
  rq_messages :: "(role \<times> jsstring) list"
  rq_temperature :: "'n or_literal"
  rq_num_predict :: "'n or_literal"

text \<open>How a generator ends: it returns, or it throws.\<close>

datatype gen_end = Returned | Threw js_error

text \<open>
  One line of a chunk, the body of the \<open>for\<close> loop: the value it yields, if any, and
  whether it returns from the generator. A line that \<open>JSON.parse\<close> rejects, and the line
  \<open>null\<close> (reading \<open>data.message\<close> throws a TypeError), end in the empty \<open>catch\<close>.
\<close>

definition decode_line :: "'n runtime \<Rightarrow> jsstring \<Rightarrow> 'n json option \<times> bool" where
  "decode_line rt line =
     (case JSON_parse rt line of
        None \<Rightarrow> (None, False)
      | Some JNull \<Rightarrow> (None, False)
      | Some data \<Rightarrow>
          (let c = (case get_prop data (js ''message'') of
                      None \<Rightarrow> None
                    | Some JNull \<Rightarrow> None
                    | Some m \<Rightarrow> get_prop m (js ''content''))
           in (if truthy_opt rt c then c else None,
               truthy_opt rt (get_prop data (js ''done'')))))"

definition yield_list :: "'a option \<Rightarrow> 'a list" where
  "yield_list y = (case y of None \<Rightarrow> [] | Some v \<Rightarrow> [v])"

text \<open>The \<open>for\<close> loop over the lines of one chunk: what it yields, and whether it returned.\<close>

fun run_lines :: "'n runtime \<Rightarrow> jsstring list \<Rightarrow> 'n json list \<times> bool" where
  "run_lines rt [] = ([], False)"
| "run_lines rt (l # ls) =
     (case decode_line rt l of
        (y, True) \<Rightarrow> (yield_list y, True)
      | (y, False) \<Rightarrow> (case run_lines rt ls of (ys, r) \<Rightarrow> (yield_list y @ ys, r)))"

text \<open>\<open>chunk.split('\n').filter(line => line.trim())\<close>\<close>

definition lines_of :: "jsstring \<Rightarrow> jsstring list" where
  "lines_of chunk = filter (\<lambda>line. js_trim line \<noteq> []) (split_newline chunk)"

text \<open>The \<open>while (true)\<close> loop over the reads.\<close>

fun read_loop :: "'n runtime \<Rightarrow> jsstring list \<Rightarrow> stream_end \<Rightarrow> 'n json list \<times> gen_end" where
  "read_loop rt [] e = (case e of Closed \<Rightarrow> ([], Returned) | Read_failed err \<Rightarrow> ([], Threw err))"
| "read_loop rt (chunk # chunks) e =
     (case run_lines rt (lines_of chunk) of
        (ys, True) \<Rightarrow> (ys, Returned)
      | (ys, False) \<Rightarrow> (case read_loop rt chunks e of (zs, r) \<Rightarrow> (ys @ zs, r)))"

text \<open>
  The generator as a whole: the values it yields, in order, and how it ends. The outer
  \<open>catch\<close> logs and rethrows.
\<close>

definition streamChat ::
  "'n runtime \<Rightarrow> ('n chat_request \<Rightarrow> fetch_result) \<Rightarrow> 'n json option \<Rightarrow> (role \<times> jsstring) list \<Rightarrow>
   'n json option \<Rightarrow> 'n json option \<Rightarrow> 'n json list \<times> gen_end" where
  "streamChat rt fetch mdl msgs temperature max_tokens =
     (case fetch \<lparr>rq_model = mdl, rq_messages = msgs,
                   rq_temperature = or_literal rt temperature Literal_0_7,
                   rq_num_predict = or_literal rt max_tokens Literal_1024\<rparr> of
        Fetch_rejected err \<Rightarrow> ([], Threw err)
      | Fetch_response ok body \<Rightarrow>
          if \<not> ok then ([], Threw (Error (js ''Failed to start chat'')))
          else (case body of
                  None \<Rightarrow> ([], Threw (Error (js ''No reader available'')))
                | Some (chunks, e) \<Rightarrow> read_loop rt chunks e))"

text \<open>
  The generator's result, given what the lines of all the chunks yield together and
  whether one of them returned: if none did, the reads run to their end.
\<close>

definition finish :: "'a list \<times> bool \<Rightarrow> stream_end \<Rightarrow> 'a list \<times> gen_end" where
  "finish p e = (case p of (ys, True) \<Rightarrow> (ys, Returned)
                 | (ys, False) \<Rightarrow> (ys, case e of Closed \<Rightarrow> Returned | Read_failed err \<Rightarrow> Threw err))"

subsection \<open>The backend's wire format\<close>

text \<open>
  The interface the specification gives for the backend's stream: newline-delimited
  JSON objects, each optionally holding a text at \<open>message.content\<close> and optionally a
  boolean \<open>done\<close>. A frame is what such an object says: its text (empty when there is
  none) and whether it is the final one. \<open>frame_of_json\<close> reads a JSON value as a
  frame, and gives \<open>None\<close> for a value that is not of this shape.
\<close>

record wire_frame =
  fr_content :: jsstring
  fr_done :: bool



text \<open>
  The fragments of a stream of frames: the non-empty texts, in order, up to and
  including the first frame that says \<open>done\<close>; and how the stream of frames ends: at a
  frame that says \<open>done\<close>, or else as the reads end.
\<close>

fun wire_fragments :: "wire_frame list \<Rightarrow> jsstring list" where
  "wire_fragments [] = []"
| "wire_fragments (fr # frs) =
     (if fr_content fr = [] then [] else [fr_content fr]) @
     (if fr_done fr then [] else wire_fragments frs)"


text \<open>A backend that answers every request with an \<open>ok\<close> response carrying the given body.\<close>

definition respond :: "jsstring list \<times> stream_end \<Rightarrow> 'n chat_request \<Rightarrow> fetch_result" where
  "respond body rq = Fetch_response True (Some body)"

section \<open>The HTTP routes\<close>

text \<open>A reply sent in one piece: a JSON body with its status, an error object, or no body.\<close>

datatype 'a reply = Reply_json nat 'a | Reply_error nat jsstring | Reply_empty nat

subsection \<open>DELETE /api/conversations/:id\<close>

definition delete_conversation_route :: "store \<Rightarrow> jsstring \<Rightarrow> unit reply \<times> store" where
  "delete_conversation_route s i =
     (case deleteConversation s i of
        (deleted, s') \<Rightarrow>
          if deleted then (Reply_empty 204, s')
          else (Reply_error 404 (js ''Conversation not found''), s'))"

subsection \<open>POST /api/conversations/:id/messages\<close>

text \<open>
  \<open>insertMessageSchema.parse\<close> wants \<open>role\<close> to be one of the two role names and
  \<open>content\<close> to be a string; \<open>conversationId\<close> comes from the path. Anything else is a
  ZodError, answered with 400.
\<close>

record 'n message_body =
  mb_role :: "'n json option"
  mb_content :: "'n json option"

definition parse_role :: "'n json option \<Rightarrow> role option" where
  "parse_role v =
     (case v of
        Some (JStr r) \<Rightarrow> if r = js ''user'' then Some User
                         else if r = js ''assistant'' then Some Assistant else None
      | _ \<Rightarrow> None)"

definition parse_text :: "'n json option \<Rightarrow> jsstring option" where
  "parse_text v = (case v of Some (JStr c) \<Rightarrow> Some c | _ \<Rightarrow> None)"

definition post_message_route ::
  "store \<Rightarrow> jsstring \<Rightarrow> 'n message_body \<Rightarrow> jsstring \<Rightarrow> date \<Rightarrow> message reply \<times> store" where
  "post_message_route s cid body uuid now =
     (case (parse_role (mb_role body), parse_text (mb_content body)) of
        (Some r, Some c) \<Rightarrow>
          (case createMessage s \<lparr>im_conversationId = cid, im_role = r, im_content = c\<rparr> uuid now of
             (message, s') \<Rightarrow> (Reply_json 201 message, s'))
      | _ \<Rightarrow> (Reply_error 400 (js ''ZodError''), s))"

subsection \<open>POST /api/conversations/:id/chat\<close>

text \<open>
  The frames of the event stream, each written as \<open>data: <JSON>\<close> and a blank line:
  \<open>{content, done}\<close> or \<open>{error}\<close>.
\<close>

datatype 'n frame = Content_frame "'n json" bool | Error_frame jsstring

text \<open>
  What the handler does to the response and to the store, in program order:
  \<open>res.writeHead\<close>, \<open>res.write\<close>, \<open>storage.createMessage\<close>, \<open>res.end\<close>, and the
  \<open>res.status(500).json\<close> of the outer \<open>catch\<close>.
\<close>

datatype 'n effect =
    WriteHead nat
  | Write "'n frame"
  | Stored message
  | End
  | Status_json nat jsstring

record 'n chat_body =
  cb_model :: "'n json option"
  cb_temperature :: "'n json option"
  cb_max_tokens :: "'n json option"

text \<open>
  The \<open>for await\<close> loop: each chunk is appended to the accumulator and then written as
  a frame. The generator touches neither the store nor the response, so the loop runs
  over the list of what it yields. If the append throws, that chunk is not written and
  the loop is left.
\<close>

fun relay :: "'n runtime \<Rightarrow> jsstring \<Rightarrow> 'n json list \<Rightarrow> (js_error + jsstring) \<times> 'n effect list" where
  "relay rt assistantMessage [] = (Inr assistantMessage, [])"
| "relay rt assistantMessage (chunk # chunks) =
     (case append_value rt assistantMessage chunk of
        Inl err \<Rightarrow> (Inl err, [])
      | Inr acc \<Rightarrow>
          (case relay rt acc chunks of (r, ws) \<Rightarrow> (r, Write (Content_frame chunk False) # ws)))"

text \<open>
  The handler. \<open>body\<close> is \<open>req.body\<close>; destructuring \<open>undefined\<close> (\<open>None\<close>) throws into the
  outer \<open>catch\<close>. The inner \<open>try\<close> reaches \<open>createMessage\<close> only if the loop ran to the
  end and the generator returned; every other way out is the inner \<open>catch\<close>.
\<close>

definition chat_route ::
  "'n runtime \<Rightarrow> ('n chat_request \<Rightarrow> fetch_result) \<Rightarrow> store \<Rightarrow> jsstring \<Rightarrow> 'n chat_body option \<Rightarrow>
   jsstring \<Rightarrow> date \<Rightarrow> store \<times> 'n effect list" where
  "chat_route rt fetch s cid body uuid now =
     (case body of
        None \<Rightarrow> (s, [Status_json 500 (js ''Failed to start chat'')])
      | Some b \<Rightarrow>
          (let chatMessages = map (\<lambda>msg. (role msg, content msg)) (getMessages s cid)
           in case streamChat rt fetch (cb_model b) chatMessages (cb_temperature b) (cb_max_tokens b) of
                (chunks, fin) \<Rightarrow>
                  (case relay rt [] chunks of
                     (acc, writes) \<Rightarrow>
                       (case (acc, fin) of
                          (Inr assistantMessage, Returned) \<Rightarrow>
                            (case createMessage s \<lparr>im_conversationId = cid, im_role = Assistant,
                                                    im_content = assistantMessage\<rparr> uuid now of
                               (message, s') \<Rightarrow>
                                 (s', WriteHead 200 # writes @
                                        [Stored message, Write (Content_frame (JStr []) True), End]))
                        | _ \<Rightarrow>
                            (s, WriteHead 200 # writes @
                                  [Write (Error_frame (js ''Failed to generate response'')), End])))))"

section \<open>The client: starting a conversation\<close>

text \<open>
  \<open>firstMessage\<close> is optional; \<open>undefined\<close> and the empty string are falsy and give the
  fixed title. \<open>slice(0, 50)\<close> keeps the first 50 code units.
\<close>

definition startNewConversation_title :: "jsstring option \<Rightarrow> jsstring" where
  "startNewConversation_title firstMessage =
     (case firstMessage of
        None \<Rightarrow> js ''New Chat''
      | Some m \<Rightarrow> if m = [] then js ''New Chat''
                  else take 50 m @ (if 50 < length m then js ''...'' else []))"

text \<open>
  The conversation is created through \<open>POST /api/conversations\<close>, whose body
  \<open>{title, model}\<close> passes the schema, so the route calls \<open>createConversation\<close> and the
  client gets the new id. (A request that fails makes the client return \<open>null\<close>; that
  path is left out.)
\<close>

definition startNewConversation ::
  "store \<Rightarrow> jsstring \<Rightarrow> jsstring option \<Rightarrow> jsstring \<Rightarrow> date \<Rightarrow> jsstring \<times> store" where
  "startNewConversation s currentModel firstMessage uuid now =
     (case createConversation s \<lparr>ic_title = startNewConversation_title firstMessage,
                                   ic_model = currentModel\<rparr> uuid now of
        (newConversation, s') \<Rightarrow> (conv_id newConversation, s'))"

text \<open>
  \<open>handleSubmit\<close> returns at once when the input is blank or a reply is being
  generated; otherwise the trimmed input is the message text, and it is the first
  message handed to \<open>startNewConversation\<close> when there is no conversation yet.
\<close>

definition handleSubmit_text :: "jsstring \<Rightarrow> bool \<Rightarrow> jsstring option" where
  "handleSubmit_text input isGenerating =
     (if js_trim input = [] \<or> isGenerating then None else Some (js_trim input))"

section \<open>Sample data\<close>

text \<open>
  A small store built with the store's own operations: two conversations and three
  messages, the last one stamped earlier than the first, so that retrieval has to sort.
\<close>

definition sample_store :: store where
  "sample_store =
     (let s1 = snd (createConversation MemStorage \<lparr>ic_title = js ''First'', ic_model = js ''llama3''\<rparr> (js ''c1'') 100);
          s2 = snd (createConversation s1 \<lparr>ic_title = js ''Second'', ic_model = js ''llama3''\<rparr> (js ''c2'') 200);
          s3 = snd (createMessage s2 \<lparr>im_conversationId = js ''c1'', im_role = User, im_content = js ''hi''\<rparr> (js ''m1'') 300);
          s4 = snd (createMessage s3 \<lparr>im_conversationId = js ''c2'', im_role = User, im_content = js ''yo''\<rparr> (js ''m2'') 250)
      in snd (createMessage s4 \<lparr>im_conversationId = js ''c1'', im_role = Assistant, im_content = js ''hello''\<rparr> (js ''m3'') 280))"

text \<open>The same model name registered twice, first without a size and then with one.\<close>

definition sample_model :: insertOllamaModel where
  "sample_model = \<lparr>im_name = js ''llama3'', im_displayName = js ''llama3'', im_size = Some None, im_isAvailable = Some True\<rparr>"

definition sample_model_sized :: insertOllamaModel where
  "sample_model_sized = \<lparr>im_name = js ''llama3'', im_displayName = js ''llama3'', im_size = Some (Some (js ''4.1GB'')), im_isAvailable = Some True\<rparr>"

text \<open>
  Three frames as the backend sends them, and a \<open>JSON.parse\<close> that is right on every
  line the examples below feed it: it knows these three frames, and the other lines of
  the examples (\<open>not json\<close> and the two halves of a frame cut in the middle) are not
  JSON texts. The sample backend only sends string contents, so \<open>ToString\<close> is never
  asked.
\<close>

definition frame_Hel :: jsstring where
  \<open>frame_Hel = js ''{"message":{"content":"Hel"}}''\<close>

definition frame_lo :: jsstring where
  \<open>frame_lo = js ''{"message":{"content":"lo"}}''\<close>

definition frame_done :: jsstring where
  \<open>frame_done = js ''{"done":true}''\<close>

definition sample_parse :: "jsstring \<Rightarrow> int json option" where
  "sample_parse line =
     (if line = frame_Hel then Some (JObj [(js ''message'', JObj [(js ''content'', JStr (js ''Hel''))])])
      else if line = frame_lo then Some (JObj [(js ''message'', JObj [(js ''content'', JStr (js ''lo''))])])
      else if line = frame_done then Some (JObj [(js ''done'', JBool True)])
      else None)"

definition sample_runtime :: "int runtime" where
  "sample_runtime = \<lparr>JSON_parse = sample_parse, Number_truthy = (\<lambda>n. n \<noteq> 0), ToString = (\<lambda>v. None)\<rparr>"

definition sample_body :: "int chat_body" where
  "sample_body = \<lparr>cb_model = Some (JStr (js ''llama3'')), cb_temperature = None, cb_max_tokens = None\<rparr>"

text \<open>A backend that answers \<open>Hel\<close>, \<open>lo\<close> in one chunk and the final frame in the next.\<close>

definition fetch_hello :: "int chat_request \<Rightarrow> fetch_result" where
  "fetch_hello = respond ([frame_Hel @ [0x0A] @ frame_lo @ [0x0A], frame_done @ [0x0A]], Closed)"

text \<open>A backend whose connection breaks after the first fragment.\<close>

definition fetch_broken :: "int chat_request \<Rightarrow> fetch_result" where
  "fetch_broken = respond ([frame_Hel @ [0x0A]], Read_failed (Error (js ''terminated'')))"

text \<open>A backend that sends the final frame and nothing else.\<close>

definition fetch_silent :: "int chat_request \<Rightarrow> fetch_result" where
  "fetch_silent = respond ([frame_done @ [0x0A]], Closed)"






text \<open>An update that renames a conversation, and one more message for the first conversation.\<close>

definition sample_rename :: conversationUpdates where
  "sample_rename = \<lparr>upd_id = None, upd_title = Some (js ''Renamed''), upd_model = None,
                     upd_createdAt = None, upd_updatedAt = None\<rparr>"

definition sample_message :: insertMessage where
  "sample_message = \<lparr>im_conversationId = js ''c1'', im_role = User, im_content = js ''again''\<rparr>"

section \<open>Lemmas about maps and arrays\<close>

lemma map_delete_absent: "\<not> map_has k m \<Longrightarrow> map_delete k m = m"
  by (induction m) (auto simp: map_has_def map_delete_def)

lemma map_get_delete: "map_get k (map_delete k m) = None"
  by (induction m) (auto simp: map_get_def map_delete_def)

lemma fold_map_delete:
  "fold (\<lambda>x. map_delete (f x)) xs m = filter (\<lambda>p. fst p \<notin> f ` set xs) m"
  by (induction xs arbitrary: m) (auto simp: map_delete_def intro: filter_cong)

lemma keyed_by_cascade:
  assumes "keyed_by f m"
  shows "filter (\<lambda>p. fst p \<notin> f ` set (filter P (map_values m))) m = filter (\<lambda>p. \<not> P (snd p)) m"
proof (rule filter_cong[OF refl])
  fix p assume p: "p \<in> set m"
  have k: "\<And>q. q \<in> set m \<Longrightarrow> f (snd q) = fst q"
    using assms by (auto simp: keyed_by_def list_all_iff)
  have inj: "q = p" if "q \<in> set m" "fst q = fst p" for q
  proof -
    have d: "distinct (map fst m)" using assms by (simp add: keyed_by_def)
    have "(fst p, snd q) \<in> set m" using that by (metis prod.collapse)
    moreover have "(fst p, snd p) \<in> set m" using p by simp
    ultimately have "snd q = snd p" using d by (rule eq_key_imp_eq_value[rotated])
    then show ?thesis using that(2) by (simp add: prod_eq_iff)
  qed
  show "(fst p \<notin> f ` set (filter P (map_values m))) = (\<not> P (snd p))"
  proof
    assume a: "fst p \<notin> f ` set (filter P (map_values m))"
    show "\<not> P (snd p)"
    proof
      assume "P (snd p)"
      then have "snd p \<in> set (filter P (map_values m))" using p by (auto simp: map_values_def)
      then have "f (snd p) \<in> f ` set (filter P (map_values m))" by blast
      then show False using a k[OF p] by simp
    qed
  next
    assume np: "\<not> P (snd p)"
    show "fst p \<notin> f ` set (filter P (map_values m))"
    proof
      assume "fst p \<in> f ` set (filter P (map_values m))"
      then obtain q where q: "q \<in> set m" "P (snd q)" "fst p = f (snd q)"
        by (auto simp: map_values_def)
      then have "fst q = fst p" using k[OF q(1)] by simp
      then have "q = p" using inj q(1) by blast
      then show False using np q(2) by simp
    qed
  qed
qed


lemma keyed_by_delete: "keyed_by f m \<Longrightarrow> keyed_by f (map_delete k m)"
  by (auto simp: keyed_by_def map_delete_def distinct_map_filter list_all_iff)

lemma keyed_by_filter: "keyed_by f m \<Longrightarrow> keyed_by f (filter P m)"
  by (auto simp: keyed_by_def distinct_map_filter list_all_iff)

lemma map_set_keys: "map fst (map_set k v m) = (if map_has k m then map fst m else map fst m @ [k])"
  by (induction m) (auto simp: map_has_def)

lemma set_map_set: "set (map_set k v m) \<subseteq> insert (k, v) (set m)"
  by (induction m) auto

lemma keyed_by_set: "keyed_by f m \<Longrightarrow> f v = k \<Longrightarrow> keyed_by f (map_set k v m)"
  using set_map_set[of k v m]
  by (auto simp: keyed_by_def map_set_keys list_all_iff map_has_def)

lemma map_set_fresh: "\<not> map_has k m \<Longrightarrow> map_set k v m = m @ [(k, v)]"
  by (induction m) (auto simp: map_has_def)

lemma map_has_get: "map_has k m = (map_get k m \<noteq> None)"
  by (simp add: map_has_def map_get_def map_of_eq_None_iff)

lemma keyed_by_get: "keyed_by f m \<Longrightarrow> map_get k m = Some v \<Longrightarrow> f v = k"
  by (auto simp: keyed_by_def map_get_def list_all_iff dest!: map_of_SomeD)

lemma keyed_by_delete_values:
  "keyed_by f m \<Longrightarrow> map_values (map_delete k m) = filter (\<lambda>v. f v \<noteq> k) (map_values m)"
  unfolding map_values_def map_delete_def filter_map
  by (rule arg_cong[where f="map snd"], rule filter_cong) (auto simp: keyed_by_def list_all_iff)

lemma deleteConversation_messages:
  assumes "keyed_by msg_id (messages s)" "map_has i (conversations s)"
  shows "messages (snd (deleteConversation s i)) = filter (\<lambda>p. conversationId (snd p) \<noteq> i) (messages s)"
  using assms keyed_by_cascade[OF assms(1), of "\<lambda>msg. conversationId msg = i"]
  by (simp add: deleteConversation_def Let_def fold_map_delete)

lemma array_find_SomeD:
  assumes "array_find P xs = Some x"
  shows "x \<in> set xs \<and> P x"
proof -
  obtain ys where "filter P xs = x # ys"
    using assms by (auto simp: array_find_def split: list.splits)
  then have "x \<in> set (filter P xs)" by simp
  then show ?thesis by simp
qed

lemma array_find_None: "array_find P xs = None \<Longrightarrow> x \<in> set xs \<Longrightarrow> \<not> P x"
  by (auto simp: array_find_def filter_empty_conv split: list.splits)

lemma array_find_unique:
  "distinct (map g xs) \<Longrightarrow> x \<in> set xs \<Longrightarrow> array_find (\<lambda>y. g y = g x) xs = Some x"
proof (induction xs)
  case Nil then show ?case by simp
next
  case (Cons a xs)
  then show ?case by (auto simp: array_find_def split: list.splits)
qed

lemma filter_unique:
  "distinct (map g xs) \<Longrightarrow> x \<in> set xs \<Longrightarrow> filter (\<lambda>y. g y = g x) xs = [x]"
proof (induction xs)
  case Nil then show ?case by simp
next
  case (Cons a xs)
  have "g a \<notin> g ` set xs" using Cons.prems(1) by simp
  then have "filter (\<lambda>y. g y = g a) xs = []" by (metis (mono_tags, lifting) filter_False imageI)
  then show ?case using Cons by auto
qed

lemma map_set_in: "(k, v) \<in> set (map_set k v m)"
  by (induction m) auto

lemma map_set_replace_names:
  "keyed_by f m \<Longrightarrow> (k, e) \<in> set m \<Longrightarrow> g v = g e \<Longrightarrow>
   map g (map_values (map_set k v m)) = map g (map_values m)"
proof (induction m)
  case Nil then show ?case by simp
next
  case (Cons p m)
  show ?case
  proof (cases "fst p = k")
    case True
    have "distinct (map fst (p # m))" using Cons.prems(1) by (simp add: keyed_by_def)
    moreover have "(k, snd p) \<in> set (p # m)" using True by (metis list.set_intros(1) prod.collapse)
    ultimately have "snd p = e" using Cons.prems(2) by (rule eq_key_imp_eq_value)
    then show ?thesis using True Cons.prems(3) by (simp add: map_values_def)
  next
    case False
    then have "(k, e) \<in> set m" using Cons.prems(2) by auto
    moreover have "keyed_by f m" using Cons.prems(1) by (simp add: keyed_by_def)
    ultimately show ?thesis using False Cons.IH Cons.prems(3) by (simp add: map_values_def)
  qed
qed

lemma map_set_new_name:
  "distinct (map g (map_values m)) \<Longrightarrow> g v \<notin> g ` set (map_values m) \<Longrightarrow>
   distinct (map g (map_values (map_set k v m)))"
proof (induction m)
  case Nil then show ?case by (simp add: map_values_def)
next
  case (Cons p m)
  have sub: "set (map_values (map_set k v m)) \<subseteq> insert v (set (map_values m))"
    using set_map_set[of k v m] by (auto simp: map_values_def)
  show ?case
  proof (cases "fst p = k")
    case True then show ?thesis using Cons.prems by (simp add: map_values_def image_image)
  next
    case False
    have "distinct (map g (map_values (map_set k v m)))"
      using Cons.IH Cons.prems by (simp add: map_values_def)
    moreover have "g (snd p) \<notin> g ` set (map_values (map_set k v m))"
    proof
      assume "g (snd p) \<in> g ` set (map_values (map_set k v m))"
      then obtain y where y: "y \<in> set (map_values (map_set k v m))" "g y = g (snd p)" by auto
      from y(1) sub have "y = v \<or> y \<in> set (map_values m)" by auto
      then show False
      proof
        assume "y = v"
        then show False using y(2) Cons.prems(2) by (simp add: map_values_def)
      next
        assume "y \<in> set (map_values m)"
        then have "g (snd p) \<in> g ` set (map_values m)" using y(2) by (metis imageI)
        then show False using Cons.prems(1) by (simp add: map_values_def image_image)
      qed
    qed
    ultimately show ?thesis using False by (simp add: map_values_def image_image)
  qed
qed

lemma createOrUpdateModel_wf:
  assumes "models_wf s"
  shows "models_wf (snd (createOrUpdateModel s ins uuid now)) \<and>
         fst (createOrUpdateModel s ins uuid now) \<in> set (map_values (models (snd (createOrUpdateModel s ins uuid now)))) \<and>
         name (fst (createOrUpdateModel s ins uuid now)) = im_name ins"
proof (cases "array_find (\<lambda>m. name m = im_name ins) (map_values (models s))")
  case None
  define v where "v = fst (createOrUpdateModel s ins uuid now)"
  have s': "models (snd (createOrUpdateModel s ins uuid now)) = map_set uuid v (models s)"
    and v: "model_id v = uuid" "name v = im_name ins"
    using None by (simp_all add: createOrUpdateModel_def v_def Let_def)
  have "name v \<notin> name ` set (map_values (models s))"
  proof
    assume "name v \<in> name ` set (map_values (models s))"
    then obtain x where x: "x \<in> set (map_values (models s))" "name x = name v" by auto
    show False using array_find_None[OF None x(1)] x(2) v(2) by simp
  qed
  then have "distinct (map name (map_values (map_set uuid v (models s))))"
    using assms by (intro map_set_new_name) (simp_all add: models_wf_def)
  moreover have "keyed_by model_id (map_set uuid v (models s))"
    using assms v(1) by (intro keyed_by_set) (simp_all add: models_wf_def)
  moreover have "v \<in> set (map_values (map_set uuid v (models s)))"
    using map_set_in[of uuid v "models s"] by (force simp: map_values_def)
  ultimately show ?thesis using s' v unfolding v_def[symmetric] by (simp add: models_wf_def)
next
  case (Some e)
  define v where "v = fst (createOrUpdateModel s ins uuid now)"
  have s': "models (snd (createOrUpdateModel s ins uuid now)) = map_set (model_id e) v (models s)"
    and v: "model_id v = model_id e" "name v = im_name ins"
    using Some by (simp_all add: createOrUpdateModel_def v_def Let_def)
  have e: "e \<in> set (map_values (models s))" "name e = im_name ins"
    using array_find_SomeD[OF Some] by auto
  have k: "keyed_by model_id (models s)" using assms by (simp add: models_wf_def)
  then have "(model_id e, e) \<in> set (models s)"
    using e(1) by (force simp: map_values_def keyed_by_def list_all_iff)
  then have "map name (map_values (map_set (model_id e) v (models s))) = map name (map_values (models s))"
    using k v(2) e(2) by (intro map_set_replace_names[where e=e and f=model_id]) simp_all
  moreover have "keyed_by model_id (map_set (model_id e) v (models s))"
    using k v(1) by (intro keyed_by_set) simp_all
  moreover have "v \<in> set (map_values (map_set (model_id e) v (models s)))"
    using map_set_in[of "model_id e" v "models s"] by (force simp: map_values_def)
  ultimately show ?thesis using s' v assms unfolding v_def[symmetric] by (simp add: models_wf_def)
qed

lemma createOrUpdateModel_existing:
  assumes "models_wf s" "x \<in> set (map_values (models s))" "name x = im_name ins"
  shows "model_id (fst (createOrUpdateModel s ins uuid now)) = model_id x"
proof -
  have "array_find (\<lambda>m. name m = name x) (map_values (models s)) = Some x"
    using assms(1,2) by (intro array_find_unique) (simp add: models_wf_def)
  then show ?thesis using assms(3) by (simp add: createOrUpdateModel_def Let_def)
qed

section \<open>The invariants hold in every store the operations build\<close>

lemma keyed_by_fold_delete: "keyed_by f m \<Longrightarrow> keyed_by f (fold (\<lambda>x. map_delete (g x)) xs m)"
  by (simp add: fold_map_delete keyed_by_filter)

lemma distinct_names_delete:
  "distinct (map g (map_values m)) \<Longrightarrow> distinct (map g (map_values (map_delete k m)))"
  using distinct_map_filter[of "g \<circ> snd" m "\<lambda>p. fst p \<noteq> k"]
  by (simp add: map_values_def map_delete_def)

lemma store_wf_MemStorage: "store_wf MemStorage"
  by (simp add: store_wf_def models_wf_def keyed_by_def MemStorage_def map_values_def)

lemma store_wf_createConversation:
  "store_wf s \<Longrightarrow> store_wf (snd (createConversation s ins uuid now))"
  by (simp add: store_wf_def models_wf_def createConversation_def Let_def keyed_by_set)

lemma store_wf_updateConversation:
  "store_wf s \<Longrightarrow> upd_id u = None \<or> upd_id u = Some i \<Longrightarrow>
   store_wf (snd (updateConversation s i u now))"
  by (auto simp: store_wf_def models_wf_def updateConversation_def Let_def spread_updates_def
           intro!: keyed_by_set dest: keyed_by_get split: option.splits)

lemma store_wf_deleteConversation:
  "store_wf s \<Longrightarrow> store_wf (snd (deleteConversation s i))"
  by (simp add: store_wf_def models_wf_def deleteConversation_def Let_def keyed_by_delete
                keyed_by_fold_delete)

lemma store_wf_createMessage:
  "store_wf s \<Longrightarrow> store_wf (snd (createMessage s ins uuid now))"
  by (simp add: store_wf_def models_wf_def createMessage_def Let_def keyed_by_set)

lemma store_wf_deleteMessages:
  "store_wf s \<Longrightarrow> store_wf (snd (deleteMessages s cid))"
  by (simp add: store_wf_def models_wf_def deleteMessages_def Let_def keyed_by_fold_delete)

lemma store_wf_createOrUpdateModel:
  assumes "store_wf s"
  shows "store_wf (snd (createOrUpdateModel s ins uuid now))"
proof -
  have "models_wf (snd (createOrUpdateModel s ins uuid now))"
    using assms createOrUpdateModel_wf[of s ins uuid now] by (simp add: store_wf_def)
  moreover have "conversations (snd (createOrUpdateModel s ins uuid now)) = conversations s"
    "messages (snd (createOrUpdateModel s ins uuid now)) = messages s"
    by (simp_all add: createOrUpdateModel_def Let_def split: option.splits)
  ultimately show ?thesis using assms by (simp add: store_wf_def)
qed

lemma store_wf_deleteModel:
  "store_wf s \<Longrightarrow> store_wf (snd (deleteModel s n))"
  by (auto simp: store_wf_def models_wf_def deleteModel_def keyed_by_delete distinct_names_delete
           split: option.splits)

lemma store_wf_post_message_route:
  "store_wf s \<Longrightarrow> store_wf (snd (post_message_route s cid body uuid now))"
  using store_wf_createMessage[of s _ uuid now]
  by (auto simp: post_message_route_def split: option.splits prod.splits) (metis snd_conv)

lemma store_wf_chat_route:
  "store_wf s \<Longrightarrow> store_wf (fst (chat_route rt fetch s cid body uuid now))"
  using store_wf_createMessage[of s _ uuid now]
  by (auto simp: chat_route_def Let_def split: option.splits prod.splits sum.splits gen_end.splits)
     (metis snd_conv)

section \<open>Lemmas about conversations\<close>

lemma map_get_set: "map_get k (map_set k v m) = Some v"
  by (induction m) (auto simp: map_get_def)

lemma list_all_map_set:
  "list_all P (map_values m) \<Longrightarrow> P v \<Longrightarrow> list_all P (map_values (map_set k v m))"
  by (induction m) (auto simp: map_values_def)

lemma createMessage_conversations:
  "conversations (snd (createMessage s ins uuid now)) = conversations s"
  by (simp add: createMessage_def Let_def)

lemma post_message_route_conversations:
  "conversations (snd (post_message_route s cid body uuid now)) = conversations s"
  by (auto simp: post_message_route_def createMessage_def Let_def split: option.splits)

lemma chat_route_conversations:
  "conversations (fst (chat_route rt fetch s cid body uuid now)) = conversations s"
  by (auto simp: chat_route_def createMessage_def Let_def
           split: option.splits prod.splits sum.splits gen_end.splits)

lemma dates_ordered_createConversation:
  "dates_ordered s \<Longrightarrow> dates_ordered (snd (createConversation s ins uuid now))"
  by (simp add: dates_ordered_def createConversation_def Let_def list_all_map_set)

lemma dates_ordered_updateConversation:
  assumes "dates_ordered s" "getConversation s i = Some c"
      and "(case upd_createdAt u of None \<Rightarrow> createdAt c | Some v \<Rightarrow> v) \<le> now"
  shows "dates_ordered (snd (updateConversation s i u now))"
  using assms
  by (simp add: dates_ordered_def updateConversation_def getConversation_def Let_def
                list_all_map_set spread_updates_def)

section \<open>Lemmas about the relay and the decoder\<close>

lemma relay_strings:
  "relay rt acc (map JStr fs) =
     (Inr (acc @ concat fs), map (\<lambda>f. Write (Content_frame (JStr f) False)) fs)"
  by (induction fs arbitrary: acc) (simp_all add: append_value_def)

lemma chat_route_returned:
  assumes "streamChat rt fetch (cb_model b) (map (\<lambda>msg. (role msg, content msg)) (getMessages s cid))
             (cb_temperature b) (cb_max_tokens b) = (map JStr fs, Returned)"
  shows "chat_route rt fetch s cid (Some b) uuid now =
           (s\<lparr>messages := map_set uuid \<lparr>msg_id = uuid, conversationId = cid, role = Assistant,
                                         content = concat fs, timestamp = now\<rparr> (messages s)\<rparr>,
            WriteHead 200 # map (\<lambda>f. Write (Content_frame (JStr f) False)) fs @
              [Stored \<lparr>msg_id = uuid, conversationId = cid, role = Assistant,
                       content = concat fs, timestamp = now\<rparr>,
               Write (Content_frame (JStr []) True), End])"
  using assms by (simp add: chat_route_def relay_strings createMessage_def Let_def)

lemma chat_route_threw:
  assumes "streamChat rt fetch (cb_model b) (map (\<lambda>msg. (role msg, content msg)) (getMessages s cid))
             (cb_temperature b) (cb_max_tokens b) = (map JStr fs, Threw err)"
  shows "chat_route rt fetch s cid (Some b) uuid now =
           (s, WriteHead 200 # map (\<lambda>f. Write (Content_frame (JStr f) False)) fs @
              [Write (Error_frame (js ''Failed to generate response'')), End])"
  using assms by (simp add: chat_route_def relay_strings Let_def)

lemma split_newline_nonempty: "split_newline s \<noteq> []"
  by (induction s) (auto split: list.splits)

lemma split_newline_append:
  "split_newline (a @ 0x0A # b) = split_newline a @ split_newline b"
proof (induction a)
  case Nil show ?case by simp
next
  case (Cons c a)
  obtain l ls where "split_newline a = l # ls"
    using split_newline_nonempty[of a] by (cases "split_newline a") auto
  then show ?case using Cons by simp
qed

lemma split_newline_single: "0x0A \<notin> set s \<Longrightarrow> split_newline s = [s]"
  by (induction s) auto

lemma lines_of_append: "lines_of (a @ 0x0A # b) = lines_of a @ lines_of b"
  by (simp add: lines_of_def split_newline_append)

lemma run_lines_append:
  "run_lines rt (xs @ ys) =
     (case run_lines rt xs of
        (a, True) \<Rightarrow> (a, True)
      | (a, False) \<Rightarrow> (case run_lines rt ys of (b, r) \<Rightarrow> (a @ b, r)))"
  by (induction xs) (auto split: prod.splits bool.splits)

lemma read_loop_lines:
  "read_loop rt chunks e = finish (run_lines rt (concat (map lines_of chunks))) e"
proof (induction chunks)
  case Nil show ?case by (simp add: finish_def split: stream_end.splits)
next
  case (Cons c cs)
  then show ?case
    by (auto simp: run_lines_append finish_def split: prod.splits bool.splits stream_end.splits)
qed

lemma run_lines_skip:
  assumes "decode_line rt bad = (None, False)"
  shows "run_lines rt (ls1 @ bad # ls2) = run_lines rt (ls1 @ ls2)"
  using assms by (simp add: run_lines_append yield_list_def split: prod.splits bool.splits)

lemma decode_line_malformed: "JSON_parse rt bad = None \<Longrightarrow> decode_line rt bad = (None, False)"
  by (simp add: decode_line_def)



lemma streamChat_respond:
  "streamChat rt (respond (chunks, e)) m h t k = read_loop rt chunks e"
  by (simp add: streamChat_def respond_def)

subsection \<open>The decoder on frames\<close>




lemma wire_fragments_append:
  "wire_fragments (a @ b) = wire_fragments a @ (if list_ex fr_done a then [] else wire_fragments b)"
  by (induction a) auto







lemma malformed_line_removable:
  assumes "JSON_parse rt bad = None"
      and "lines_of chunk = before @ bad # after"
      and "lines_of chunk' = before @ after"
  shows "streamChat rt (respond (pre @ chunk # post, e)) m h t k =
           streamChat rt (respond (pre @ chunk' # post, e)) m h t k"
proof -
  have "decode_line rt bad = (None, False)" using assms(1) by (rule decode_line_malformed)
  then have skip: "run_lines rt (ls1 @ bad # ls2) = run_lines rt (ls1 @ ls2)" for ls1 ls2
    by (rule run_lines_skip)
  have "run_lines rt (concat (map lines_of (pre @ chunk # post))) =
        run_lines rt ((concat (map lines_of pre) @ before) @ bad # (after @ concat (map lines_of post)))"
    using assms(2) by simp
  also have "\<dots> = run_lines rt ((concat (map lines_of pre) @ before) @ (after @ concat (map lines_of post)))"
    by (rule skip)
  also have "\<dots> = run_lines rt (concat (map lines_of (pre @ chunk' # post)))"
    using assms(3) by simp
  finally show ?thesis
    by (simp only: streamChat_respond read_loop_lines)
qed

section \<open>The sample store\<close>

lemma sample_store_value:
  "sample_store =
     \<lparr>conversations =
        [(js ''c1'', \<lparr>conv_id = js ''c1'', title = js ''First'', model = js ''llama3'', createdAt = 100, updatedAt = 100\<rparr>),
         (js ''c2'', \<lparr>conv_id = js ''c2'', title = js ''Second'', model = js ''llama3'', createdAt = 200, updatedAt = 200\<rparr>)],
      messages =
        [(js ''m1'', \<lparr>msg_id = js ''m1'', conversationId = js ''c1'', role = User, content = js ''hi'', timestamp = 300\<rparr>),
         (js ''m2'', \<lparr>msg_id = js ''m2'', conversationId = js ''c2'', role = User, content = js ''yo'', timestamp = 250\<rparr>),
         (js ''m3'', \<lparr>msg_id = js ''m3'', conversationId = js ''c1'', role = Assistant, content = js ''hello'', timestamp = 280\<rparr>)],
      models = []\<rparr>"
  by (simp add: sample_store_def createConversation_def createMessage_def MemStorage_def js_def Let_def)

lemma js_c: "js ''c1'' \<noteq> js ''c2''" "js ''c2'' \<noteq> js ''c1''"
  by (simp_all add: js_def)

lemma sample_store_keyed:
  "keyed_by conv_id (conversations sample_store)" "keyed_by msg_id (messages sample_store)"
  by (simp_all add: sample_store_value keyed_by_def js_def)

lemma sample_dates_ordered: "dates_ordered sample_store"
  by (simp add: dates_ordered_def sample_store_value map_values_def)

lemma sample_c1:
  "getConversation sample_store (js ''c1'') =
     Some \<lparr>conv_id = js ''c1'', title = js ''First'', model = js ''llama3'', createdAt = 100, updatedAt = 100\<rparr>"
  by (simp add: sample_store_value getConversation_def map_get_def)

section \<open>The sample backends\<close>

lemma frames_distinct:
  "frame_Hel \<noteq> frame_lo" "frame_Hel \<noteq> frame_done" "frame_lo \<noteq> frame_done"
  "frame_lo \<noteq> frame_Hel" "frame_done \<noteq> frame_Hel" "frame_done \<noteq> frame_lo"
  by (simp_all add: frame_Hel_def frame_lo_def frame_done_def js_def)

lemma lines_of_frames:
  "lines_of frame_Hel = [frame_Hel]" "lines_of frame_lo = [frame_lo]" "lines_of frame_done = [frame_done]"
  by (simp_all add: lines_of_def split_newline_single frame_Hel_def frame_lo_def frame_done_def
                    js_def js_trim_def is_whitespace_def)

lemma lines_of_empty: "lines_of [] = []"
  by (simp add: lines_of_def js_trim_def)

lemma decode_sample_frames:
  "decode_line sample_runtime frame_Hel = (Some (JStr (js ''Hel'')), False)"
  "decode_line sample_runtime frame_lo = (Some (JStr (js ''lo'')), False)"
  "decode_line sample_runtime frame_done = (None, True)"
  by (simp_all add: decode_line_def sample_runtime_def sample_parse_def frames_distinct truthy_opt_def js_def)

lemma streamChat_hello:
  "streamChat sample_runtime fetch_hello m h t k = ([JStr (js ''Hel''), JStr (js ''lo'')], Returned)"
  using lines_of_append[of frame_Hel "frame_lo @ [0x0A]"] lines_of_append[of frame_lo "[]"]
        lines_of_append[of frame_done "[]"]
  by (simp add: streamChat_def fetch_hello_def respond_def lines_of_frames lines_of_empty decode_sample_frames yield_list_def)

lemma streamChat_broken:
  "streamChat sample_runtime fetch_broken m h t k = ([JStr (js ''Hel'')], Threw (Error (js ''terminated'')))"
  using lines_of_append[of frame_Hel "[]"]
  by (simp add: streamChat_def fetch_broken_def respond_def lines_of_frames lines_of_empty decode_sample_frames yield_list_def)

lemma streamChat_silent:
  "streamChat sample_runtime fetch_silent m h t k = ([], Returned)"
  using lines_of_append[of frame_done "[]"]
  by (simp add: streamChat_def fetch_silent_def respond_def lines_of_frames lines_of_empty decode_sample_frames yield_list_def)










section \<open>Properties of the record store\<close>

subsection \<open>Message retrieval\<close>

text \<open>
  C9. For every conversation id and every store, \<open>getMessages\<close> returns a list in
  non-decreasing timestamp order, and every message in it belongs to the conversation
  asked for.
\<close>

theorem getMessages_sorted_and_owned:
  "sorted (map timestamp (getMessages s cid)) \<and>
   (\<forall>msg \<in> set (getMessages s cid). conversationId msg = cid)"
  by (simp add: getMessages_def)

theorem getMessages_sorted_and_owned_witness:
  "getMessages sample_store (js ''c1'') =
     [\<lparr>msg_id = js ''m3'', conversationId = js ''c1'', role = Assistant, content = js ''hello'', timestamp = 280\<rparr>,
      \<lparr>msg_id = js ''m1'', conversationId = js ''c1'', role = User, content = js ''hi'', timestamp = 300\<rparr>] \<and>
   sorted (map timestamp (getMessages sample_store (js ''c1''))) \<and>
   list_all (\<lambda>msg. conversationId msg = js ''c1'') (getMessages sample_store (js ''c1''))"
  using getMessages_sorted_and_owned[of sample_store "js ''c1''"]
  by (simp add: sample_store_value getMessages_def map_values_def js_c list_all_iff)

subsection \<open>Cascade delete\<close>

text \<open>
  C6. Deleting a conversation that is in the store returns true (the route answers
  204), takes it out of what \<open>getConversations\<close> returns and leaves \<open>getMessages\<close>
  with no message of that conversation, the messages of every other conversation staying
  as they were. Deleting an id that is not in the store returns false (the route answers
  404) and changes nothing.
\<close>

theorem deleteConversation_cascade:
  assumes "keyed_by conv_id (conversations s)" and "keyed_by msg_id (messages s)"
  shows "(getConversation s i \<noteq> None \<longrightarrow>
            fst (deleteConversation s i) = True \<and>
            fst (delete_conversation_route s i) = Reply_empty 204 \<and>
            snd (delete_conversation_route s i) = snd (deleteConversation s i) \<and>
            getConversation (snd (deleteConversation s i)) i = None \<and>
            getConversations (snd (deleteConversation s i)) =
              filter (\<lambda>c. conv_id c \<noteq> i) (getConversations s) \<and>
            getMessages (snd (deleteConversation s i)) i = [] \<and>
            (\<forall>j. j \<noteq> i \<longrightarrow> getMessages (snd (deleteConversation s i)) j = getMessages s j)) \<and>
         (getConversation s i = None \<longrightarrow>
            deleteConversation s i = (False, s) \<and>
            delete_conversation_route s i = (Reply_error 404 (js ''Conversation not found''), s))"
proof (intro conjI impI)
  assume "getConversation s i = None"
  then have "\<not> map_has i (conversations s)" by (simp add: map_has_get getConversation_def)
  then show d: "deleteConversation s i = (False, s)"
    by (simp add: deleteConversation_def Let_def map_delete_absent)
  show "delete_conversation_route s i = (Reply_error 404 (js ''Conversation not found''), s)"
    by (simp add: delete_conversation_route_def d)
next
  assume "getConversation s i \<noteq> None"
  then have h: "map_has i (conversations s)" by (simp add: map_has_get getConversation_def)
  have c: "conversations (snd (deleteConversation s i)) = map_delete i (conversations s)"
    by (simp add: deleteConversation_def Let_def)
  have m: "map_values (messages (snd (deleteConversation s i))) =
           filter (\<lambda>msg. conversationId msg \<noteq> i) (map_values (messages s))"
    by (simp add: deleteConversation_messages[OF assms(2) h] map_values_def filter_map o_def)
  show t: "fst (deleteConversation s i) = True"
    using h by (simp add: deleteConversation_def Let_def)
  show "fst (delete_conversation_route s i) = Reply_empty 204"
    using t by (cases "deleteConversation s i") (simp add: delete_conversation_route_def)
  show "snd (delete_conversation_route s i) = snd (deleteConversation s i)"
    by (cases "deleteConversation s i") (simp add: delete_conversation_route_def)
  show "getConversation (snd (deleteConversation s i)) i = None"
    by (simp add: getConversation_def c map_get_delete)
  show "getConversations (snd (deleteConversation s i)) = filter (\<lambda>c. conv_id c \<noteq> i) (getConversations s)"
    by (simp add: getConversations_def c keyed_by_delete_values[OF assms(1)] filter_sort)
  show "getMessages (snd (deleteConversation s i)) i = []"
    by (simp add: getMessages_def m)
  show "\<forall>j. j \<noteq> i \<longrightarrow> getMessages (snd (deleteConversation s i)) j = getMessages s j"
  proof (intro allI impI)
    fix j :: jsstring assume "j \<noteq> i"
    then have "filter (\<lambda>msg. conversationId msg = j) (filter (\<lambda>msg. conversationId msg \<noteq> i) (map_values (messages s)))
             = filter (\<lambda>msg. conversationId msg = j) (map_values (messages s))"
      by (auto intro: filter_cong)
    then show "getMessages (snd (deleteConversation s i)) j = getMessages s j"
      by (simp add: getMessages_def m)
  qed
qed

theorem deleteConversation_cascade_witness:
  "keyed_by conv_id (conversations sample_store) \<and> keyed_by msg_id (messages sample_store) \<and>
   getConversation sample_store (js ''c1'') \<noteq> None \<and>
   fst (deleteConversation sample_store (js ''c1'')) = True \<and>
   fst (delete_conversation_route sample_store (js ''c1'')) = Reply_empty 204 \<and>
   getConversation (snd (deleteConversation sample_store (js ''c1''))) (js ''c1'') = None \<and>
   getConversations (snd (deleteConversation sample_store (js ''c1''))) =
     [\<lparr>conv_id = js ''c2'', title = js ''Second'', model = js ''llama3'', createdAt = 200, updatedAt = 200\<rparr>] \<and>
   getMessages (snd (deleteConversation sample_store (js ''c1''))) (js ''c1'') = [] \<and>
   getMessages (snd (deleteConversation sample_store (js ''c1''))) (js ''c2'') = getMessages sample_store (js ''c2'') \<and>
   getConversation sample_store (js ''c9'') = None \<and>
   deleteConversation sample_store (js ''c9'') = (False, sample_store) \<and>
   delete_conversation_route sample_store (js ''c9'') =
     (Reply_error 404 (js ''Conversation not found''), sample_store)"
proof -
  have g1: "getConversation sample_store (js ''c1'') \<noteq> None"
    by (simp add: sample_store_value getConversation_def map_get_def)
  have g9: "getConversation sample_store (js ''c9'') = None"
    by (simp add: sample_store_value getConversation_def map_get_def js_def)
  have gc: "getConversations sample_store =
     [\<lparr>conv_id = js ''c2'', title = js ''Second'', model = js ''llama3'', createdAt = 200, updatedAt = 200\<rparr>,
      \<lparr>conv_id = js ''c1'', title = js ''First'', model = js ''llama3'', createdAt = 100, updatedAt = 100\<rparr>]"
    by (simp add: sample_store_value getConversations_def map_values_def)
  show ?thesis
    using deleteConversation_cascade[OF sample_store_keyed, of "js ''c1''"]
          deleteConversation_cascade[OF sample_store_keyed, of "js ''c9''"]
          g1 g9 sample_store_keyed
    by (simp add: gc js_c)
qed

subsection \<open>Model upsert\<close>

text \<open>
  C7. Calling \<open>createOrUpdateModel\<close> twice with the same name leaves at most one record
  of that name in the store, and the record the second call returns has the id of the
  record the first call returned.
\<close>

theorem createOrUpdateModel_twice:
  assumes "models_wf s" and "im_name a = n" and "im_name b = n"
  shows "length (filter (\<lambda>m. name m = n)
           (map_values (models (snd (createOrUpdateModel (snd (createOrUpdateModel s a u1 t1)) b u2 t2))))) \<le> 1 \<and>
         model_id (fst (createOrUpdateModel (snd (createOrUpdateModel s a u1 t1)) b u2 t2)) =
         model_id (fst (createOrUpdateModel s a u1 t1))"
proof -
  let ?r1 = "createOrUpdateModel s a u1 t1"
  let ?r2 = "createOrUpdateModel (snd ?r1) b u2 t2"
  have 1: "models_wf (snd ?r1)" "fst ?r1 \<in> set (map_values (models (snd ?r1)))" "name (fst ?r1) = n"
    using createOrUpdateModel_wf[OF assms(1), of a u1 t1] assms(2) by simp_all
  have 2: "models_wf (snd ?r2)" "fst ?r2 \<in> set (map_values (models (snd ?r2)))" "name (fst ?r2) = n"
    using createOrUpdateModel_wf[OF 1(1), of b u2 t2] assms(3) by simp_all
  have "filter (\<lambda>m. name m = name (fst ?r2)) (map_values (models (snd ?r2))) = [fst ?r2]"
    using 2(1,2) by (intro filter_unique) (simp add: models_wf_def)
  then have "length (filter (\<lambda>m. name m = n) (map_values (models (snd ?r2)))) \<le> 1"
    using 2(3) by simp
  moreover have "model_id (fst ?r2) = model_id (fst ?r1)"
    using createOrUpdateModel_existing[OF 1(1,2)] 1(3) assms(3) by simp
  ultimately show ?thesis by simp
qed

theorem createOrUpdateModel_twice_witness:
  "models_wf MemStorage \<and> im_name sample_model = js ''llama3'' \<and> im_name sample_model_sized = js ''llama3'' \<and>
   length (filter (\<lambda>m. name m = js ''llama3'')
           (map_values (models (snd (createOrUpdateModel (snd (createOrUpdateModel MemStorage sample_model (js ''id1'') 10))
              sample_model_sized (js ''id2'') 20))))) \<le> 1 \<and>
   model_id (fst (createOrUpdateModel (snd (createOrUpdateModel MemStorage sample_model (js ''id1'') 10))
              sample_model_sized (js ''id2'') 20)) = js ''id1''"
proof -
  have w: "models_wf MemStorage"
    by (simp add: models_wf_def keyed_by_def MemStorage_def map_values_def)
  have a: "im_name sample_model = js ''llama3''" by (simp add: sample_model_def)
  have b: "im_name sample_model_sized = js ''llama3''" by (simp add: sample_model_sized_def)
  have f: "model_id (fst (createOrUpdateModel MemStorage sample_model (js ''id1'') 10)) = js ''id1''"
    by (simp add: createOrUpdateModel_def MemStorage_def map_values_def array_find_def Let_def)
  show ?thesis
    using createOrUpdateModel_twice[OF w a b, of "js ''id1''" 10 "js ''id2''" 20] w a b f
    by simp
qed

subsection \<open>Dates of a conversation\<close>

text \<open>
  C3 (as the code has it). \<open>createConversation\<close> sets \<open>createdAt\<close> and \<open>updatedAt\<close> to
  the time of creation; \<open>updateConversation\<close> on a stored id sets \<open>updatedAt\<close> to the
  time of the update, and \<open>updatedAt \<ge> createdAt\<close> holds after it whenever the
  \<open>createdAt\<close> it leaves is not later than that time. Appending a message, through
  \<open>createMessage\<close>, the messages route or the chat route, leaves the conversation
  collection as it was: the dates stay ordered, and \<open>updatedAt\<close> is not refreshed.
\<close>

theorem updatedAt_set_by_conversation_writes_only:
  "createdAt (fst (createConversation s ins uuid now)) = now \<and>
   updatedAt (fst (createConversation s ins uuid now)) = now \<and>
   getConversation (snd (createConversation s ins uuid now)) uuid = Some (fst (createConversation s ins uuid now)) \<and>
   (dates_ordered s \<longrightarrow> dates_ordered (snd (createConversation s ins uuid now))) \<and>
   (getConversation s i = Some c \<longrightarrow>
      getConversation (snd (updateConversation s i u now)) i = fst (updateConversation s i u now) \<and>
      map_option updatedAt (fst (updateConversation s i u now)) = Some now \<and>
      map_option createdAt (fst (updateConversation s i u now)) =
        Some (case upd_createdAt u of None \<Rightarrow> createdAt c | Some v \<Rightarrow> v) \<and>
      (dates_ordered s \<and> (case upd_createdAt u of None \<Rightarrow> createdAt c | Some v \<Rightarrow> v) \<le> now \<longrightarrow>
         dates_ordered (snd (updateConversation s i u now)))) \<and>
   conversations (snd (createMessage s im uuid now)) = conversations s \<and>
   conversations (snd (post_message_route s cid body uuid now)) = conversations s \<and>
   conversations (fst (chat_route rt fetch s cid b uuid now)) = conversations s"
proof -
  have upd: "getConversation (snd (updateConversation s i u now)) i = fst (updateConversation s i u now) \<and>
      map_option updatedAt (fst (updateConversation s i u now)) = Some now \<and>
      map_option createdAt (fst (updateConversation s i u now)) =
        Some (case upd_createdAt u of None \<Rightarrow> createdAt c | Some v \<Rightarrow> v)"
    if "getConversation s i = Some c"
    using that
    by (simp add: updateConversation_def getConversation_def Let_def map_get_set spread_updates_def)
  have new: "createdAt (fst (createConversation s ins uuid now)) = now \<and>
   updatedAt (fst (createConversation s ins uuid now)) = now \<and>
   getConversation (snd (createConversation s ins uuid now)) uuid = Some (fst (createConversation s ins uuid now))"
    by (simp add: createConversation_def getConversation_def Let_def map_get_set)
  have ord: "dates_ordered (snd (updateConversation s i u now))"
    if "getConversation s i = Some c" "dates_ordered s"
       "(case upd_createdAt u of None \<Rightarrow> createdAt c | Some v \<Rightarrow> v) \<le> now"
    using that(2,1,3) by (rule dates_ordered_updateConversation)
  show ?thesis
    using upd new ord
    by (simp add: dates_ordered_createConversation createMessage_conversations
                  post_message_route_conversations chat_route_conversations)
qed

theorem updatedAt_set_by_conversation_writes_only_witness:
  "getConversation sample_store (js ''c1'') =
     Some \<lparr>conv_id = js ''c1'', title = js ''First'', model = js ''llama3'', createdAt = 100, updatedAt = 100\<rparr> \<and>
   dates_ordered sample_store \<and>
   map_option updatedAt (fst (updateConversation sample_store (js ''c1'') sample_rename 600)) = Some 600 \<and>
   map_option createdAt (fst (updateConversation sample_store (js ''c1'') sample_rename 600)) = Some 100 \<and>
   dates_ordered (snd (updateConversation sample_store (js ''c1'') sample_rename 600)) \<and>
   updatedAt (fst (createConversation sample_store \<lparr>ic_title = js ''Third'', ic_model = js ''llama3''\<rparr> (js ''c3'') 500)) = 500 \<and>
   conversations (snd (createMessage sample_store sample_message (js ''m4'') 400)) = conversations sample_store"
proof -
  note T = updatedAt_set_by_conversation_writes_only[where s = sample_store and now = 600
            and i = "js ''c1''" and u = sample_rename
            and c = "\<lparr>conv_id = js ''c1'', title = js ''First'', model = js ''llama3'', createdAt = 100, updatedAt = 100\<rparr>"]
  note N = updatedAt_set_by_conversation_writes_only[where s = sample_store and now = 500
            and ins = "\<lparr>ic_title = js ''Third'', ic_model = js ''llama3''\<rparr>" and uuid = "js ''c3''"]
  note M = updatedAt_set_by_conversation_writes_only[where s = sample_store and now = 400
            and im = sample_message and uuid = "js ''m4''"]
  have le: "(case upd_createdAt sample_rename of None \<Rightarrow>
               createdAt \<lparr>conv_id = js ''c1'', title = js ''First'', model = js ''llama3'', createdAt = 100, updatedAt = 100\<rparr>
             | Some v \<Rightarrow> v) = 100"
    by (simp add: sample_rename_def)
  have u1: "map_option updatedAt (fst (updateConversation sample_store (js ''c1'') sample_rename 600)) = Some 600"
    using T sample_c1 by blast
  have u2: "map_option createdAt (fst (updateConversation sample_store (js ''c1'') sample_rename 600)) = Some 100"
    using T sample_c1 unfolding le by blast
  have u3: "dates_ordered (snd (updateConversation sample_store (js ''c1'') sample_rename 600))"
  proof -
    have "dates_ordered sample_store \<and> (100::int) \<le> 600 \<longrightarrow>
          dates_ordered (snd (updateConversation sample_store (js ''c1'') sample_rename 600))"
      using T sample_c1 unfolding le by blast
    then show ?thesis using sample_dates_ordered by simp
  qed
  have n: "updatedAt (fst (createConversation sample_store \<lparr>ic_title = js ''Third'', ic_model = js ''llama3''\<rparr> (js ''c3'') 500)) = 500"
    using N by blast
  have m: "conversations (snd (createMessage sample_store sample_message (js ''m4'') 400)) = conversations sample_store"
    using M by blast
  show ?thesis using sample_c1 sample_dates_ordered u1 u2 u3 n m by (intro conjI)
qed

text \<open>
  The sample conversation \<open>c1\<close> was last updated at 100. After a message is appended
  to it at 400, by \<open>createMessage\<close> or by a completed chat stream, its \<open>updatedAt\<close> is
  still 100.
\<close>

theorem message_append_leaves_updatedAt:
  "map_option updatedAt (getConversation sample_store (js ''c1'')) = Some 100 \<and>
   map_option updatedAt
     (getConversation (snd (createMessage sample_store sample_message (js ''m4'') 400)) (js ''c1'')) = Some 100 \<and>
   map_option updatedAt
     (getConversation (fst (chat_route sample_runtime fetch_hello sample_store (js ''c1'')
        (Some sample_body) (js ''m4'') 400)) (js ''c1'')) = Some 100"
  by (simp add: getConversation_def createMessage_conversations chat_route_conversations
                sample_c1[unfolded getConversation_def])

section \<open>Properties of the chat stream\<close>

subsection \<open>A stream that completes\<close>




text \<open>
  C10. When the generator returns without having yielded anything, the chat route
  still stores an assistant message, with the empty string as content, and still
  writes the final frame.
\<close>

theorem chat_stream_empty_reply:
  assumes "streamChat rt fetch (cb_model b) (map (\<lambda>msg. (role msg, content msg)) (getMessages s cid))
             (cb_temperature b) (cb_max_tokens b) = ([], Returned)"
      and "\<not> map_has uuid (messages s)"
  shows "chat_route rt fetch s cid (Some b) uuid now =
           (s\<lparr>messages := messages s @
                  [(uuid, \<lparr>msg_id = uuid, conversationId = cid, role = Assistant,
                           content = [], timestamp = now\<rparr>)]\<rparr>,
            [WriteHead 200,
             Stored \<lparr>msg_id = uuid, conversationId = cid, role = Assistant, content = [], timestamp = now\<rparr>,
             Write (Content_frame (JStr []) True), End])"
  using chat_route_returned[of rt fetch b s cid "[]" uuid now] assms(1) map_set_fresh[OF assms(2)]
  by simp

theorem chat_stream_empty_reply_witness:
  "streamChat sample_runtime fetch_silent (cb_model sample_body)
     (map (\<lambda>msg. (role msg, content msg)) (getMessages sample_store (js ''c1'')))
     (cb_temperature sample_body) (cb_max_tokens sample_body) = ([], Returned) \<and>
   \<not> map_has (js ''m4'') (messages sample_store) \<and>
   chat_route sample_runtime fetch_silent sample_store (js ''c1'') (Some sample_body) (js ''m4'') 400 =
     (sample_store\<lparr>messages := messages sample_store @
        [(js ''m4'', \<lparr>msg_id = js ''m4'', conversationId = js ''c1'', role = Assistant,
                        content = [], timestamp = 400\<rparr>)]\<rparr>,
      [WriteHead 200,
       Stored \<lparr>msg_id = js ''m4'', conversationId = js ''c1'', role = Assistant, content = [], timestamp = 400\<rparr>,
       Write (Content_frame (JStr []) True), End])"
proof -
  have h: "streamChat sample_runtime fetch_silent (cb_model sample_body)
     (map (\<lambda>msg. (role msg, content msg)) (getMessages sample_store (js ''c1'')))
     (cb_temperature sample_body) (cb_max_tokens sample_body) = ([], Returned)"
    by (simp add: streamChat_silent)
  have f: "\<not> map_has (js ''m4'') (messages sample_store)"
    by (simp add: sample_store_value map_has_def js_def)
  show ?thesis using chat_stream_empty_reply[OF h f, of 400] h f by simp
qed

subsection \<open>A stream that fails\<close>

text \<open>
  C2. When the generator throws after yielding the fragments \<open>fs\<close>, the chat route
  leaves the store as it was, and after the frames of those fragments it writes an
  \<open>{error}\<close> frame and ends the response.
\<close>

theorem chat_stream_failure:
  assumes "streamChat rt fetch (cb_model b) (map (\<lambda>msg. (role msg, content msg)) (getMessages s cid))
             (cb_temperature b) (cb_max_tokens b) = (map JStr fs, Threw err)"
  shows "chat_route rt fetch s cid (Some b) uuid now =
           (s, WriteHead 200 # map (\<lambda>f. Write (Content_frame (JStr f) False)) fs @
              [Write (Error_frame (js ''Failed to generate response'')), End])"
  using chat_route_threw[OF assms] .

theorem chat_stream_failure_witness:
  "streamChat sample_runtime fetch_broken (cb_model sample_body)
     (map (\<lambda>msg. (role msg, content msg)) (getMessages sample_store (js ''c1'')))
     (cb_temperature sample_body) (cb_max_tokens sample_body) =
       (map JStr [js ''Hel''], Threw (Error (js ''terminated''))) \<and>
   chat_route sample_runtime fetch_broken sample_store (js ''c1'') (Some sample_body) (js ''m4'') 400 =
     (sample_store,
      [WriteHead 200, Write (Content_frame (JStr (js ''Hel'')) False),
       Write (Error_frame (js ''Failed to generate response'')), End])"
proof -
  have h: "streamChat sample_runtime fetch_broken (cb_model sample_body)
     (map (\<lambda>msg. (role msg, content msg)) (getMessages sample_store (js ''c1'')))
     (cb_temperature sample_body) (cb_max_tokens sample_body) =
       (map JStr [js ''Hel''], Threw (Error (js ''terminated'')))"
    by (simp add: streamChat_broken)
  show ?thesis using chat_stream_failure[OF h, of "js ''m4''" 400] h by simp
qed

section \<open>Properties of the stream decoder\<close>

subsection \<open>Malformed lines\<close>



subsection \<open>Chunk boundaries\<close>




section \<open>Properties of the client\<close>

text \<open>
  C8. For a first prompt \<open>s\<close> (never empty: a blank input is not submitted), the title
  of the conversation created is the first 50 code units of \<open>s\<close> followed by three dots
  when \<open>s\<close> is longer than 50, and \<open>s\<close> itself otherwise.
\<close>

theorem title_derivation:
  assumes "s \<noteq> []"
  shows "(50 < length s \<longrightarrow> startNewConversation_title (Some s) = take 50 s @ js ''...'') \<and>
         (length s \<le> 50 \<longrightarrow> startNewConversation_title (Some s) = s) \<and>
         map_option title (getConversation (snd (startNewConversation st currentModel (Some s) uuid now)) uuid) =
           Some (startNewConversation_title (Some s)) \<and>
         handleSubmit_text input isGenerating \<noteq> Some []"
  using assms
  by (simp add: startNewConversation_title_def startNewConversation_def createConversation_def
                getConversation_def map_get_set handleSubmit_text_def Let_def)

theorem title_derivation_witness:
  "replicate 60 (0x61 :: 16 word) \<noteq> [] \<and> replicate 30 (0x61 :: 16 word) \<noteq> [] \<and>
   startNewConversation_title (Some (replicate 60 0x61)) = replicate 50 0x61 @ js ''...'' \<and>
   startNewConversation_title (Some (replicate 30 0x61)) = replicate 30 0x61 \<and>
   map_option title (getConversation (snd (startNewConversation MemStorage (js ''llama3'')
       (Some (replicate 60 0x61)) (js ''c1'') 100)) (js ''c1'')) = Some (replicate 50 0x61 @ js ''...'')"
proof -
  have a: "replicate 60 (0x61 :: 16 word) \<noteq> []" and b: "replicate 30 (0x61 :: 16 word) \<noteq> []"
    by simp_all
  note L = title_derivation[OF a, of MemStorage "js ''llama3''" "js ''c1''" 100]
  note S = title_derivation[OF b]
  have "startNewConversation_title (Some (replicate 60 0x61)) = take 50 (replicate 60 0x61) @ js ''...''"
    using L by simp
  then have l: "startNewConversation_title (Some (replicate 60 0x61)) = replicate 50 0x61 @ js ''...''"
    by simp
  have s: "startNewConversation_title (Some (replicate 30 0x61)) = replicate 30 0x61"
    using S by simp
  have "map_option title (getConversation (snd (startNewConversation MemStorage (js ''llama3'')
       (Some (replicate 60 0x61)) (js ''c1'') 100)) (js ''c1'')) = Some (startNewConversation_title (Some (replicate 60 0x61)))"
    using L by blast
  then have st: "map_option title (getConversation (snd (startNewConversation MemStorage (js ''llama3'')
       (Some (replicate 60 0x61)) (js ''c1'') 100)) (js ''c1'')) = Some (replicate 50 0x61 @ js ''...'')"
    unfolding l .
  show ?thesis using a b l s st by (intro conjI)
qed

end
